theory Spec2Isabelle
  imports Complex_Main "HOL-Library.Product_Lexorder"
begin

section \<open>Response models (app/models/response.py)\<close>

text \<open>
  The three pydantic models are classes whose bodies hold annotated fields only: no
  validator, no default, no constraint. Each becomes a record with the fields of the
  class, in the order of the class. A Python \<open>str\<close> is a \<open>string\<close>; a Python \<open>float\<close>
  is modelled by the real number it denotes (the clock never yields an infinity or a NaN),
  and arithmetic on floats rounds its result, see \<open>float_sub\<close> below.
\<close>

record HealthResponse =
  status :: string
  version :: string
  uptime :: real

record MessageResponse =
  message :: string
  version :: string
  timestamp :: string

text \<open>The values of \<open>typing.Any\<close> that a JSON payload can carry.\<close>

datatype py_any =
    PNone
  | PBool bool
  | PInt int
  | PFloat real
  | PStr string
  | PList "py_any list"
  | PDict "(string \<times> py_any) list"

record DetailResponse =
  detail :: "(string \<times> py_any) list"

section \<open>The clock\<close>

text \<open>
  \<open>datetime.utcnow()\<close> yields a naive datetime: seven non-negative integer fields and no
  time zone. The constructor of the standard library admits exactly the field values
  accepted by \<open>valid_datetime\<close>.
\<close>

record datetime =
  year :: nat
  month :: nat
  day :: nat
  hour :: nat
  minute :: nat
  second :: nat
  microsecond :: nat

definition is_leap :: "nat \<Rightarrow> bool" where
  "is_leap y = (y mod 4 = 0 \<and> (y mod 100 \<noteq> 0 \<or> y mod 400 = 0))"

definition days_in_month :: "nat \<Rightarrow> nat \<Rightarrow> nat" where
  "days_in_month y m =
     (if m = 2 then (if is_leap y then 29 else 28)
      else if m = 4 \<or> m = 6 \<or> m = 9 \<or> m = 11 then 30
      else 31)"

definition valid_datetime :: "datetime \<Rightarrow> bool" where
  "valid_datetime d =
     (1 \<le> year d \<and> year d \<le> 9999 \<and>
      1 \<le> month d \<and> month d \<le> 12 \<and>
      1 \<le> day d \<and> day d \<le> days_in_month (year d) (month d) \<and>
      hour d < 24 \<and> minute d < 60 \<and> second d < 60 \<and> microsecond d < 1000000)"

text \<open>
  Naive datetimes are ordered field by field, the most significant field first, as
  Python compares them.
\<close>

definition dt_key :: "datetime \<Rightarrow> nat \<times> nat \<times> nat \<times> nat \<times> nat \<times> nat \<times> nat" where
  "dt_key d = (year d, month d, day d, hour d, minute d, second d, microsecond d)"

definition dt_le :: "datetime \<Rightarrow> datetime \<Rightarrow> bool" where
  "dt_le a b = (dt_key a \<le> dt_key b)"

text \<open>
  What the system clock shows during one handler call: \<open>time.time()\<close> (seconds since the
  epoch, a float) and \<open>datetime.utcnow()\<close>. Each handler reads the clock at most once.
\<close>

record clock =
  time_time :: real
  utcnow :: datetime

section \<open>\<open>datetime.isoformat\<close>\<close>

text \<open>
  The standard library formats a naive datetime as \<open>%04d-%02d-%02dT%02d:%02d:%02d\<close>,
  followed by \<open>.%06d\<close> of the microseconds when they are not zero.
\<close>

definition digit_char :: "nat \<Rightarrow> char" where
  "digit_char n = ''0123456789'' ! n"

fun str_nat :: "nat \<Rightarrow> string" where
  "str_nat n = (if n < 10 then [digit_char n] else str_nat (n div 10) @ [digit_char (n mod 10)])"

declare str_nat.simps [simp del]

definition zero_pad :: "nat \<Rightarrow> nat \<Rightarrow> string" where
  "zero_pad w n = replicate (w - length (str_nat n)) (CHR ''0'') @ str_nat n"

definition format_time :: "nat \<Rightarrow> nat \<Rightarrow> nat \<Rightarrow> nat \<Rightarrow> string" where
  "format_time hh mm ss us =
     zero_pad 2 hh @ '':'' @ zero_pad 2 mm @ '':'' @ zero_pad 2 ss @
     (if us \<noteq> 0 then ''.'' @ zero_pad 6 us else [])"

definition isoformat :: "datetime \<Rightarrow> string" where
  "isoformat d =
     zero_pad 4 (year d) @ ''-'' @ zero_pad 2 (month d) @ ''-'' @ zero_pad 2 (day d) @ ''T'' @
     format_time (hour d) (minute d) (second d) (microsecond d)"

section \<open>Reading an ISO-8601 timestamp\<close>

text \<open>
  A reader for the extended ISO-8601 format \<open>YYYY-MM-DDTHH:MM:SS\<close> with an optional
  fraction of six digits. It is the yardstick for "parseable as ISO-8601": it returns
  the datetime a string denotes, or \<open>None\<close>.
\<close>

definition digit_val :: "char \<Rightarrow> nat option" where
  "digit_val c =
     (let n = (of_char c :: nat) in if 48 \<le> n \<and> n \<le> 57 then Some (n - 48) else None)"

fun parse_digits :: "nat \<Rightarrow> string \<Rightarrow> nat option" where
  "parse_digits acc [] = Some acc"
| "parse_digits acc (c # cs) =
     (case digit_val c of None \<Rightarrow> None | Some v \<Rightarrow> parse_digits (10 * acc + v) cs)"

definition field :: "nat \<Rightarrow> nat \<Rightarrow> string \<Rightarrow> nat option" where
  "field pos len s = parse_digits 0 (take len (drop pos s))"

definition parse_iso8601 :: "string \<Rightarrow> datetime option" where
  "parse_iso8601 s =
     (if (length s = 19 \<or> (length s = 26 \<and> s ! 19 = CHR ''.'')) \<and>
         s ! 4 = CHR ''-'' \<and> s ! 7 = CHR ''-'' \<and> s ! 10 = CHR ''T'' \<and>
         s ! 13 = CHR '':'' \<and> s ! 16 = CHR '':''
      then
        (case (field 0 4 s, field 5 2 s, field 8 2 s, field 11 2 s, field 14 2 s,
               field 17 2 s, if length s = 26 then field 20 6 s else Some 0) of
           (Some y, Some mo, Some dd, Some hh, Some mi, Some ss, Some us) \<Rightarrow>
             (let d = \<lparr>year = y, month = mo, day = dd, hour = hh, minute = mi,
                       second = ss, microsecond = us\<rparr>
              in if valid_datetime d then Some d else None)
         | _ \<Rightarrow> None)
      else None)"

section \<open>Python floats\<close>

text \<open>
  A Python \<open>float\<close> is an IEEE 754 binary64 number, and \<open>a - b\<close> on floats is the exact
  difference rounded to the nearest binary64 number, ties going to the even significand.
  The binary64 numbers around \<open>x\<close> are the integer multiples of \<open>2 powi exponent64 x\<close>: a
  significand of 53 bits, and the fixed spacing \<open>2 powi (- 1074)\<close> below the normal range.
  The differences of two clock readings are far below \<open>2 ^ 1024\<close>, where a float
  overflows to infinity; overflow is outside this model.
\<close>

definition rne :: "real \<Rightarrow> int" where
  "rne q =
     (let n = \<lfloor>q\<rfloor>; r = q - of_int n
      in if r < 1 / 2 then n else if 1 / 2 < r then n + 1 else if even n then n else n + 1)"

definition exponent64 :: "real \<Rightarrow> int" where
  "exponent64 x = max (\<lfloor>log 2 \<bar>x\<bar>\<rfloor> - 52) (- 1074)"

definition round64 :: "real \<Rightarrow> real" where
  "round64 x =
     (if x = 0 then 0
      else of_int (rne (x / 2 powi exponent64 x)) * 2 powi exponent64 x)"

definition float_sub :: "real \<Rightarrow> real \<Rightarrow> real" where
  "float_sub a b = round64 (a - b)"

section \<open>Process state and module load (app/routers/health.py)\<close>

text \<open>
  \<open>startup_time = time.time()\<close> runs when the module is imported. It is the one
  module-level variable holding data; the handlers read it and never assign it.
\<close>

record proc_state =
  startup_time :: real

definition module_load :: "real \<Rightarrow> proc_state" where
  "module_load now = \<lparr>startup_time = now\<rparr>"

section \<open>Handlers\<close>

text \<open>
  A handler takes the clock of its call and the process state, and returns its response
  with the process state it leaves behind.
\<close>

definition health_check :: "clock \<Rightarrow> proc_state \<Rightarrow> HealthResponse \<times> proc_state" where
  "health_check clk g =
     (\<lparr>status = ''healthy'',
       version = ''1.0.0'',
       uptime = float_sub (time_time clk) (startup_time g)\<rparr>, g)"

definition root :: "clock \<Rightarrow> proc_state \<Rightarrow> MessageResponse \<times> proc_state" where
  "root clk g =
     (\<lparr>message = ''Welcome to FastAPI with Alpine Docker! '',
       version = ''1.0.0'',
       timestamp = isoformat (utcnow clk)\<rparr>, g)"

definition info :: "clock \<Rightarrow> proc_state \<Rightarrow> (string \<times> string) list \<times> proc_state" where
  "info clk g =
     ([(''name'', ''FastAPI Demo API''),
       (''version'', ''1.0.0''),
       (''framework'', ''FastAPI''),
       (''python_version'', ''3.11''),
       (''server'', ''uvicorn''),
       (''base_image'', ''python:3.11-alpine''),
       (''docs'', ''/docs''),
       (''redoc'', ''/redoc'')], g)"

section \<open>Routing and runs (app/main.py)\<close>

text \<open>
  The three registered routes: \<open>GET /\<close> is served by \<open>root\<close>, \<open>GET /api/info\<close> by \<open>info\<close>
  and \<open>GET /health\<close> by \<open>health_check\<close>. A response is one of the three models or the
  plain dictionary that \<open>info\<close> returns.
\<close>

datatype endpoint = Root | Info | Health

datatype response =
    Message MessageResponse
  | Dict "(string \<times> string) list"
  | HealthR HealthResponse
  | Detail DetailResponse

fun handle :: "endpoint \<Rightarrow> clock \<Rightarrow> proc_state \<Rightarrow> response \<times> proc_state" where
  "handle Root clk g = (let (r, g') = root clk g in (Message r, g'))"
| "handle Info clk g = (let (r, g') = info clk g in (Dict r, g'))"
| "handle Health clk g = (let (r, g') = health_check clk g in (HealthR r, g'))"

text \<open>
  A run serves the calls one after the other, each with the clock of its moment, and
  threads the process state through them.
\<close>

fun run :: "(endpoint \<times> clock) list \<Rightarrow> proc_state \<Rightarrow> response list \<times> proc_state" where
  "run [] g = ([], g)"
| "run ((e, clk) # calls) g =
     (let (r, g') = handle e clk g; (rs, g'') = run calls g' in (r # rs, g''))"

fun uptimes :: "response list \<Rightarrow> real list" where
  "uptimes [] = []"
| "uptimes (HealthR h # rs) = uptime h # uptimes rs"
| "uptimes (_ # rs) = uptimes rs"

fun timestamps :: "response list \<Rightarrow> string list" where
  "timestamps [] = []"
| "timestamps (Message m # rs) = timestamp m # timestamps rs"
| "timestamps (_ # rs) = timestamps rs"

text \<open>The clock readings that the calls of a run take, in the order of the calls.\<close>

fun health_readings :: "(endpoint \<times> clock) list \<Rightarrow> real list" where
  "health_readings [] = []"
| "health_readings ((Health, clk) # calls) = time_time clk # health_readings calls"
| "health_readings (_ # calls) = health_readings calls"

fun root_readings :: "(endpoint \<times> clock) list \<Rightarrow> datetime list" where
  "root_readings [] = []"
| "root_readings ((Root, clk) # calls) = utcnow clk # root_readings calls"
| "root_readings (_ # calls) = root_readings calls"

text \<open>
  What a handler observes of the clock: \<open>health_check\<close> calls \<open>time.time()\<close>, \<open>root\<close> calls
  \<open>datetime.utcnow()\<close>, \<open>info\<close> reads no clock.
\<close>

fun observed :: "endpoint \<Rightarrow> clock \<Rightarrow> real option \<times> datetime option" where
  "observed Root clk = (None, Some (utcnow clk))"
| "observed Info clk = (None, None)"
| "observed Health clk = (Some (time_time clk), None)"

text \<open>
  Two responses are structurally identical except for the timestamp and the uptime when
  they are equal once these two fields are blanked.
\<close>

fun mask :: "response \<Rightarrow> response" where
  "mask (Message m) = Message (m\<lparr>timestamp := []\<rparr>)"
| "mask (HealthR h) = HealthR (h\<lparr>uptime := 0\<rparr>)"
| "mask r = r"

text \<open>The object that the specification gives for \<open>GET /api/info\<close>, key by key.\<close>

definition info_spec :: "string \<rightharpoonup> string" where
  "info_spec =
     [''name'' \<mapsto> ''FastAPI Demo API'',
      ''version'' \<mapsto> ''1.0.0'',
      ''framework'' \<mapsto> ''FastAPI'',
      ''python_version'' \<mapsto> ''3.11'',
      ''server'' \<mapsto> ''uvicorn'',
      ''base_image'' \<mapsto> ''python:3.11-alpine'',
      ''docs'' \<mapsto> ''/docs'',
      ''redoc'' \<mapsto> ''/redoc'']"

section \<open>The process state is never changed\<close>

lemma handle_state: "snd (handle e clk g) = g"
  by (cases e) (simp_all add: root_def info_def health_check_def)

lemma run_state: "snd (run calls g) = g"
proof (induction calls arbitrary: g)
  case Nil
  show ?case by simp
next
  case (Cons c calls)
  obtain e clk where c: "c = (e, clk)" by (cases c)
  have "snd (run (c # calls) g) = snd (run calls (snd (handle e clk g)))"
    by (simp add: c split: prod.splits)
  then show ?case
    by (simp add: handle_state Cons.IH)
qed

lemma run_responses: "fst (run calls g) = map (\<lambda>(e, clk). fst (handle e clk g)) calls"
proof (induction calls)
  case Nil
  show ?case by simp
next
  case (Cons c calls)
  obtain e clk where c: "c = (e, clk)" by (cases c)
  have g': "snd (handle e clk g) = g" by (rule handle_state)
  have "fst (run (c # calls) g) = fst (handle e clk g) # fst (run calls (snd (handle e clk g)))"
    by (simp add: c split: prod.splits)
  then show ?case
    by (simp add: g' Cons.IH c)
qed

section \<open>Formatting a datetime and reading it back\<close>

lemma digit_val_digit_char:
  assumes "d < 10"
  shows "digit_val (digit_char d) = Some d"
proof -
  from assms have "d \<in> set [0..<10]" by simp
  then consider "d = 0" | "d = 1" | "d = 2" | "d = 3" | "d = 4" | "d = 5" | "d = 6" | "d = 7"
    | "d = 8" | "d = 9"
    by (auto simp add: upt_rec)
  then show ?thesis
    by cases (simp_all add: digit_char_def digit_val_def)
qed

lemma digit_val_zero: "digit_val (CHR ''0'') = Some 0"
  by (simp add: digit_val_def)

lemma parse_digits_append:
  "parse_digits acc (xs @ ys) =
     (case parse_digits acc xs of None \<Rightarrow> None | Some a \<Rightarrow> parse_digits a ys)"
  by (induction xs arbitrary: acc) (auto split: option.splits)

lemma parse_digits_str_nat:
  "parse_digits acc (str_nat n) = Some (acc * 10 ^ length (str_nat n) + n)"
proof (induction n arbitrary: acc rule: str_nat.induct)
  case (1 n)
  show ?case
  proof (cases "n < 10")
    case True
    then show ?thesis
      by (subst (1 2) str_nat.simps) (simp add: digit_val_digit_char)
  next
    case False
    have m: "n mod 10 < 10" by simp
    have "parse_digits acc (str_nat n) =
            parse_digits acc (str_nat (n div 10) @ [digit_char (n mod 10)])"
      using False by (subst str_nat.simps) simp
    also have "\<dots> = Some (10 * (acc * 10 ^ length (str_nat (n div 10)) + n div 10) + n mod 10)"
      using False by (simp add: parse_digits_append "1.IH" digit_val_digit_char [OF m])
    also have "\<dots> = Some (acc * 10 ^ length (str_nat n) + n)"
      using False by (subst (2) str_nat.simps) (simp add: algebra_simps)
    finally show ?thesis .
  qed
qed

lemma parse_digits_zeros: "parse_digits 0 (replicate k (CHR ''0'')) = Some 0"
  by (induction k) (simp_all add: digit_val_zero)

lemma parse_digits_zero_pad: "parse_digits 0 (zero_pad w n) = Some n"
  by (simp add: zero_pad_def parse_digits_append parse_digits_zeros parse_digits_str_nat)

lemma length_str_nat: "0 < w \<Longrightarrow> n < 10 ^ w \<Longrightarrow> length (str_nat n) \<le> w"
proof (induction n arbitrary: w rule: str_nat.induct)
  case (1 n)
  show ?case
  proof (cases "n < 10")
    case True
    then show ?thesis using "1.prems" by (subst str_nat.simps) simp
  next
    case False
    obtain v where w: "w = Suc v" using "1.prems"(1) by (cases w) auto
    have "n < 10 * 10 ^ v" using "1.prems"(2) by (simp add: w)
    then have d: "n div 10 < 10 ^ v" by (simp add: less_mult_imp_div_less mult.commute)
    have "0 < v" using d False by (cases v) auto
    then have "length (str_nat (n div 10)) \<le> v" using "1.IH" [OF False _ d] by simp
    then show ?thesis using False by (subst str_nat.simps) (simp add: w)
  qed
qed

lemma length_zero_pad: "0 < w \<Longrightarrow> n < 10 ^ w \<Longrightarrow> length (zero_pad w n) = w"
  using length_str_nat [of w n] by (simp add: zero_pad_def)


lemma layout_fields:
  assumes "length a = 4" "length b = 2" "length c = 2" "length e = 2" "length f = 2"
    "length h = 2"
  shows "field 0 4 (a @ ''-'' @ b @ ''-'' @ c @ ''T'' @ e @ '':'' @ f @ '':'' @ h @ r) = parse_digits 0 a"
    and "field 5 2 (a @ ''-'' @ b @ ''-'' @ c @ ''T'' @ e @ '':'' @ f @ '':'' @ h @ r) = parse_digits 0 b"
    and "field 8 2 (a @ ''-'' @ b @ ''-'' @ c @ ''T'' @ e @ '':'' @ f @ '':'' @ h @ r) = parse_digits 0 c"
    and "field 11 2 (a @ ''-'' @ b @ ''-'' @ c @ ''T'' @ e @ '':'' @ f @ '':'' @ h @ r) = parse_digits 0 e"
    and "field 14 2 (a @ ''-'' @ b @ ''-'' @ c @ ''T'' @ e @ '':'' @ f @ '':'' @ h @ r) = parse_digits 0 f"
    and "field 17 2 (a @ ''-'' @ b @ ''-'' @ c @ ''T'' @ e @ '':'' @ f @ '':'' @ h @ r) = parse_digits 0 h"
  using assms by (simp_all add: field_def)

lemma layout_fraction:
  assumes "length a = 4" "length b = 2" "length c = 2" "length e = 2" "length f = 2"
    "length h = 2" "length u = 6"
  shows "field 20 6 (a @ ''-'' @ b @ ''-'' @ c @ ''T'' @ e @ '':'' @ f @ '':'' @ h @ ''.'' @ u) = parse_digits 0 u"
    and "(a @ ''-'' @ b @ ''-'' @ c @ ''T'' @ e @ '':'' @ f @ '':'' @ h @ ''.'' @ u) ! 19 = CHR ''.''"
  using assms by (simp_all add: field_def nth_append)

lemma layout_separators:
  assumes "length a = 4" "length b = 2" "length c = 2" "length e = 2" "length f = 2"
    "length h = 2"
  shows "(a @ ''-'' @ b @ ''-'' @ c @ ''T'' @ e @ '':'' @ f @ '':'' @ h @ r) ! 4 = CHR ''-''"
    and "(a @ ''-'' @ b @ ''-'' @ c @ ''T'' @ e @ '':'' @ f @ '':'' @ h @ r) ! 7 = CHR ''-''"
    and "(a @ ''-'' @ b @ ''-'' @ c @ ''T'' @ e @ '':'' @ f @ '':'' @ h @ r) ! 10 = CHR ''T''"
    and "(a @ ''-'' @ b @ ''-'' @ c @ ''T'' @ e @ '':'' @ f @ '':'' @ h @ r) ! 13 = CHR '':''"
    and "(a @ ''-'' @ b @ ''-'' @ c @ ''T'' @ e @ '':'' @ f @ '':'' @ h @ r) ! 16 = CHR '':''"
  using assms by (simp_all add: nth_append)


lemma parse_iso8601_isoformat:
  assumes v: "valid_datetime d"
  shows "parse_iso8601 (isoformat d) = Some d"
proof -
  have dim: "days_in_month (year d) (month d) \<le> 31"
    by (simp add: days_in_month_def)
  have bounds: "year d < 10 ^ 4" "month d < 10 ^ 2" "day d < 10 ^ 2" "hour d < 10 ^ 2"
    "minute d < 10 ^ 2" "second d < 10 ^ 2" "microsecond d < 10 ^ 6"
    using v dim by (simp_all add: valid_datetime_def)
  define a where "a = zero_pad 4 (year d)"
  define b where "b = zero_pad 2 (month d)"
  define c where "c = zero_pad 2 (day d)"
  define e where "e = zero_pad 2 (hour d)"
  define f where "f = zero_pad 2 (minute d)"
  define h where "h = zero_pad 2 (second d)"
  define u where "u = zero_pad 6 (microsecond d)"
  define r where "r = (if microsecond d \<noteq> 0 then ''.'' @ u else [])"
  have len: "length a = 4" "length b = 2" "length c = 2" "length e = 2" "length f = 2"
    "length h = 2" "length u = 6"
    using bounds by (simp_all add: a_def b_def c_def e_def f_def h_def u_def length_zero_pad)
  have val: "parse_digits 0 a = Some (year d)" "parse_digits 0 b = Some (month d)"
    "parse_digits 0 c = Some (day d)" "parse_digits 0 e = Some (hour d)"
    "parse_digits 0 f = Some (minute d)" "parse_digits 0 h = Some (second d)"
    "parse_digits 0 u = Some (microsecond d)"
    by (simp_all add: a_def b_def c_def e_def f_def h_def u_def parse_digits_zero_pad)
  have s: "isoformat d = a @ ''-'' @ b @ ''-'' @ c @ ''T'' @ e @ '':'' @ f @ '':'' @ h @ r"
    by (simp add: isoformat_def format_time_def a_def b_def c_def e_def f_def h_def u_def r_def)
  have d: "\<lparr>year = year d, month = month d, day = day d, hour = hour d, minute = minute d,
             second = second d, microsecond = microsecond d\<rparr> = d"
    by simp
  show ?thesis
  proof (cases "microsecond d = 0")
    case True
    then have r: "r = []" by (simp add: r_def)
    have l: "length (isoformat d) = 19" by (simp add: s r len)
    have d0: "\<lparr>year = year d, month = month d, day = day d, hour = hour d, minute = minute d,
               second = second d, microsecond = 0\<rparr> = d"
      using True by (cases d) simp
    show ?thesis
      unfolding parse_iso8601_def l
      unfolding s layout_fields [OF len(1-6)] layout_separators [OF len(1-6)] val
      using v by (simp add: d0)
  next
    case False
    then have r: "r = ''.'' @ u" by (simp add: r_def)
    have l: "length (isoformat d) = 26" by (simp add: s r len)
    have p: "isoformat d ! 19 = CHR ''.''"
      unfolding s r by (rule layout_fraction(2) [OF len])
    have q: "field 20 6 (isoformat d) = Some (microsecond d)"
      unfolding s r by (simp only: layout_fraction(1) [OF len] val)
    show ?thesis
      unfolding parse_iso8601_def l p q
      unfolding s layout_fields [OF len(1-6)] layout_separators [OF len(1-6)] val
      using v by (simp add: d)
  qed
qed

section \<open>Rounding to binary64\<close>

lemma rne_bounds: "\<lfloor>q\<rfloor> \<le> rne q \<and> rne q \<le> \<lfloor>q\<rfloor> + 1"
  by (simp add: rne_def Let_def)

lemma rne_of_int: "rne (of_int n) = n"
  by (simp add: rne_def)

lemma rne_error: "\<bar>of_int (rne q) - q\<bar> \<le> 1 / 2"
  unfolding rne_def Let_def by (auto; linarith)

lemma rne_mono: "q \<le> q' \<Longrightarrow> rne q \<le> rne q'"
proof -
  assume le: "q \<le> q'"
  have f: "\<lfloor>q\<rfloor> \<le> \<lfloor>q'\<rfloor>" using le by (rule floor_mono)
  show ?thesis
  proof (cases "\<lfloor>q\<rfloor> = \<lfloor>q'\<rfloor>")
    case True
    then show ?thesis using le unfolding rne_def Let_def by auto
  next
    case False
    then have "\<lfloor>q\<rfloor> + 1 \<le> \<lfloor>q'\<rfloor>" using f by simp
    then show ?thesis using rne_bounds [of q] rne_bounds [of q'] by linarith
  qed
qed

lemma rne_minus: "rne (- q) = - rne q"
proof (cases "q = of_int \<lfloor>q\<rfloor>")
  case True
  then obtain n where "q = of_int n" by blast
  then show ?thesis
    by (metis of_int_minus rne_of_int)
next
  case False
  then have c: "\<lceil>q\<rceil> = \<lfloor>q\<rfloor> + 1"
    by (metis ceiling_altdef)
  have fm: "\<lfloor>- q\<rfloor> = - \<lfloor>q\<rfloor> - 1"
    using c by (simp add: ceiling_def)
  have r: "0 < q - of_int \<lfloor>q\<rfloor>" "q - of_int \<lfloor>q\<rfloor> < 1"
    using False by linarith+
  show ?thesis
    unfolding rne_def Let_def fm using r by auto
qed


lemma binade:
  assumes "x \<noteq> 0"
  shows "2 powi \<lfloor>log 2 \<bar>x\<bar>\<rfloor> \<le> \<bar>x\<bar>" and "\<bar>x\<bar> < 2 powi (\<lfloor>log 2 \<bar>x\<bar>\<rfloor> + 1)"
proof -
  have p: "0 < \<bar>x\<bar>" using assms by simp
  have b: "2 powr (of_int \<lfloor>log 2 \<bar>x\<bar>\<rfloor>) \<le> \<bar>x\<bar> \<and> \<bar>x\<bar> < 2 powr (of_int \<lfloor>log 2 \<bar>x\<bar>\<rfloor> + 1)"
    using floor_log_eq_powr_iff [OF p, of 2 "\<lfloor>log 2 \<bar>x\<bar>\<rfloor>"] by simp
  have c: "(2::real) powr (of_int k) = 2 powi k" for k
    by (simp add: powr_real_of_int')
  show "2 powi \<lfloor>log 2 \<bar>x\<bar>\<rfloor> \<le> \<bar>x\<bar>"
    using b c [of "\<lfloor>log 2 \<bar>x\<bar>\<rfloor>"] by simp
  show "\<bar>x\<bar> < 2 powi (\<lfloor>log 2 \<bar>x\<bar>\<rfloor> + 1)"
    using b c [of "\<lfloor>log 2 \<bar>x\<bar>\<rfloor> + 1"] by simp
qed

lemma exponent64_minus: "exponent64 (- x) = exponent64 x"
  by (simp add: exponent64_def)

lemma exponent64_mono:
  assumes "0 < x" and "x \<le> y"
  shows "exponent64 x \<le> exponent64 y"
proof -
  have "log 2 x \<le> log 2 y" using assms by simp
  then have "\<lfloor>log 2 x\<rfloor> \<le> \<lfloor>log 2 y\<rfloor>" by (rule floor_mono)
  then show ?thesis using assms by (simp add: exponent64_def)
qed

lemma round64_zero: "round64 0 = 0"
  by (simp add: round64_def)

lemma round64_minus: "round64 (- x) = - round64 x"
  by (simp add: round64_def exponent64_minus rne_minus)

lemma scaled_upper:
  assumes "0 < x"
  shows "x / 2 powi exponent64 x < 2 ^ 53"
proof -
  let ?k = "\<lfloor>log 2 \<bar>x\<bar>\<rfloor>"
  have "x < 2 powi (?k + 1)" using binade(2) [of x] assms by simp
  also have "\<dots> \<le> 2 powi (exponent64 x + 53)"
    by (rule power_int_increasing) (simp_all add: exponent64_def)
  also have "\<dots> = 2 powi exponent64 x * 2 ^ 53"
    by (simp add: power_int_add)
  finally show ?thesis
    by (simp add: pos_divide_less_eq mult.commute)
qed

lemma scaled_lower:
  assumes "0 < x" and "- 1074 < exponent64 x"
  shows "2 ^ 52 \<le> x / 2 powi exponent64 x"
proof -
  let ?k = "\<lfloor>log 2 \<bar>x\<bar>\<rfloor>"
  have e: "exponent64 x = ?k - 52" using assms(2) by (simp add: exponent64_def max_def split: if_splits)
  have "2 powi exponent64 x * 2 ^ 52 = (2::real) powi (exponent64 x + 52)"
    by (simp add: power_int_add)
  also have "\<dots> = 2 powi ?k" by (simp add: e)
  also have "\<dots> \<le> x" using binade(1) [of x] assms by simp
  finally show ?thesis
    by (simp add: pos_le_divide_eq mult.commute)
qed

lemma round64_nonneg:
  assumes "0 \<le> x"
  shows "0 \<le> round64 x"
proof (cases "x = 0")
  case True
  then show ?thesis by (simp add: round64_def)
next
  case False
  have "0 \<le> x / 2 powi exponent64 x" using assms by simp
  then have "0 \<le> \<lfloor>x / 2 powi exponent64 x\<rfloor>" by simp
  then have "0 \<le> rne (x / 2 powi exponent64 x)"
    using rne_bounds [of "x / 2 powi exponent64 x"] by linarith
  then show ?thesis using False by (simp add: round64_def)
qed

lemma round64_upper:
  assumes "0 < x"
  shows "round64 x \<le> 2 powi (exponent64 x + 53)"
proof -
  let ?q = "x / 2 powi exponent64 x"
  have "?q < 2 ^ 53" using assms by (rule scaled_upper)
  then have "\<lfloor>?q\<rfloor> < 2 ^ 53" by (simp add: floor_less_iff)
  then have "rne ?q \<le> 2 ^ 53" using rne_bounds [of ?q] by linarith
  then have "(of_int (rne ?q) :: real) \<le> of_int (2 ^ 53)" by (simp only: of_int_le_iff)
  then have "of_int (rne ?q) * 2 powi exponent64 x \<le> 2 ^ 53 * (2::real) powi exponent64 x"
    by (simp add: mult_right_mono)
  then show ?thesis using assms by (simp add: round64_def power_int_add mult.commute)
qed

lemma round64_lower:
  assumes "0 < x" and "- 1074 < exponent64 x"
  shows "2 powi (exponent64 x + 52) \<le> round64 x"
proof -
  let ?q = "x / 2 powi exponent64 x"
  have "2 ^ 52 \<le> ?q" using assms by (rule scaled_lower)
  then have "of_int (2 ^ 52) \<le> ?q" by simp
  then have "2 ^ 52 \<le> \<lfloor>?q\<rfloor>" by (simp only: le_floor_iff)
  then have "2 ^ 52 \<le> rne ?q" using rne_bounds [of ?q] by linarith
  then have "(of_int (2 ^ 52) :: real) \<le> of_int (rne ?q)" by (simp only: of_int_le_iff)
  then have "2 ^ 52 * (2::real) powi exponent64 x \<le> of_int (rne ?q) * 2 powi exponent64 x"
    by (simp add: mult_right_mono)
  then show ?thesis using assms by (simp add: round64_def power_int_add mult.commute)
qed

lemma round64_mono_pos:
  assumes "0 < x" and "x \<le> y"
  shows "round64 x \<le> round64 y"
proof (cases "exponent64 x = exponent64 y")
  case True
  have "x / 2 powi exponent64 y \<le> y / 2 powi exponent64 y"
    using assms by (simp add: divide_right_mono)
  then have "rne (x / 2 powi exponent64 y) \<le> rne (y / 2 powi exponent64 y)"
    by (rule rne_mono)
  then have "(of_int (rne (x / 2 powi exponent64 y)) :: real) \<le> of_int (rne (y / 2 powi exponent64 y))"
    by (simp only: of_int_le_iff)
  then show ?thesis using assms True by (simp add: round64_def mult_right_mono)
next
  case False
  have y: "0 < y" using assms by simp
  have "exponent64 x \<le> exponent64 y" using assms by (rule exponent64_mono)
  then have lt: "exponent64 x + 1 \<le> exponent64 y" using False by simp
  have "- 1074 \<le> exponent64 x" by (simp add: exponent64_def)
  then have n: "- 1074 < exponent64 y" using lt by simp
  have "round64 x \<le> 2 powi (exponent64 x + 53)" using assms(1) by (rule round64_upper)
  also have "\<dots> \<le> 2 powi (exponent64 y + 52)"
    by (rule power_int_increasing) (use lt in simp_all)
  also have "\<dots> \<le> round64 y" using y n by (rule round64_lower)
  finally show ?thesis .
qed

lemma round64_mono:
  assumes "x \<le> y"
  shows "round64 x \<le> round64 y"
proof -
  consider "0 < x" | "x \<le> 0" "0 \<le> y" | "y < 0" by linarith
  then show ?thesis
  proof cases
    case 1
    then show ?thesis using assms by (rule round64_mono_pos)
  next
    case 2
    have "round64 x = - round64 (- x)" by (simp add: round64_minus)
    moreover have "0 \<le> round64 (- x)" using 2 by (simp add: round64_nonneg)
    moreover have "0 \<le> round64 y" using 2 by (simp add: round64_nonneg)
    ultimately show ?thesis by linarith
  next
    case 3
    have "round64 (- y) \<le> round64 (- x)"
      using 3 assms by (intro round64_mono_pos) simp_all
    then show ?thesis by (simp add: round64_minus)
  qed
qed


lemma round64_error:
  "\<bar>round64 x - x\<bar> \<le> max (\<bar>x\<bar> / 2 ^ 53) (2 powi (- 1075))"
proof (cases "x = 0")
  case True
  then show ?thesis by (simp add: round64_def)
next
  case False
  let ?e = "exponent64 x"
  let ?q = "x / 2 powi ?e"
  have p: "(0::real) < 2 powi ?e" by simp
  have "round64 x - x = (of_int (rne ?q) - ?q) * 2 powi ?e"
    using False by (simp add: round64_def algebra_simps)
  then have "\<bar>round64 x - x\<bar> = \<bar>of_int (rne ?q) - ?q\<bar> * 2 powi ?e"
    by (simp add: abs_mult)
  also have "\<dots> \<le> 1 / 2 * 2 powi ?e"
    using rne_error [of ?q] p by (intro mult_right_mono) simp_all
  also have "\<dots> = 2 powi (?e - 1)"
    by (simp add: power_int_diff)
  finally have h: "\<bar>round64 x - x\<bar> \<le> 2 powi (?e - 1)" .
  show ?thesis
  proof (cases "?e = - 1074")
    case True
    then show ?thesis using h by (simp add: max_def)
  next
    case n: False
    let ?k = "\<lfloor>log 2 \<bar>x\<bar>\<rfloor>"
    have e: "?e = ?k - 52" using n by (simp add: exponent64_def max_def split: if_splits)
    have "(2::real) powi (?e - 1) = 2 powi ?k / 2 ^ 53"
      by (simp add: e power_int_diff)
    also have "\<dots> \<le> \<bar>x\<bar> / 2 ^ 53"
      using binade(1) [OF False] by (simp add: divide_right_mono)
    finally show ?thesis using h by (simp add: max_def)
  qed
qed

lemma round64_exact:
  assumes "x / 2 powi exponent64 x = of_int m"
  shows "round64 x = x"
proof (cases "x = 0")
  case True
  then show ?thesis by (simp add: round64_def)
next
  case False
  have "round64 x = of_int (rne (of_int m)) * 2 powi exponent64 x"
    using False assms by (simp add: round64_def)
  also have "\<dots> = of_int m * 2 powi exponent64 x" by (simp add: rne_of_int)
  also have "\<dots> = x" using assms [symmetric] by simp
  finally show ?thesis .
qed

lemma round64_of_int:
  assumes "\<bar>n\<bar> < 2 ^ 53"
  shows "round64 (of_int n) = of_int n"
proof (cases "n = 0")
  case True
  then show ?thesis by (simp add: round64_def)
next
  case False
  let ?x = "of_int n :: real"
  let ?k = "\<lfloor>log 2 \<bar>?x\<bar>\<rfloor>"
  have x: "?x \<noteq> 0" using False by simp
  have one: "1 \<le> \<bar>?x\<bar>" using False by (simp flip: of_int_abs)
  have "0 \<le> log 2 \<bar>?x\<bar>" using one by simp
  then have k0: "0 \<le> ?k" by simp
  have "\<bar>?x\<bar> < 2 ^ 53" using assms by (simp flip: of_int_abs)
  moreover have "2 powi ?k \<le> \<bar>?x\<bar>" using binade(1) [OF x] .
  ultimately have lt: "(2::real) powi ?k < 2 powi 53" by simp
  have k53: "?k < 53"
  proof (rule ccontr)
    assume "\<not> ?k < 53"
    then have "(2::real) powi 53 \<le> 2 powi ?k"
      by (intro power_int_increasing) simp_all
    with lt show False by simp
  qed
  have e: "exponent64 ?x = ?k - 52" using k0 by (simp add: exponent64_def)
  define j where "j = nat (52 - ?k)"
  have j: "exponent64 ?x = - int j" using k53 by (simp add: e j_def)
  have "?x / 2 powi exponent64 ?x = of_int (n * 2 ^ j)"
    by (simp add: j power_int_minus field_simps)
  then show ?thesis by (rule round64_exact)
qed

text \<open>
  The subtraction does round: \<open>2 ^ 30 - 1 / 2 ^ 30\<close> needs 60 significant bits, and the
  nearest binary64 number is \<open>2 ^ 30\<close>.
\<close>

lemma float_sub_rounds: "float_sub (2 ^ 30) (1 / 2 ^ 30) = 2 ^ 30"
proof -
  define x :: real where "x = 2 ^ 30 - 1 / 2 ^ 30"
  have pos: "0 < x" by (simp add: x_def)
  have "2 powr (of_int 29) \<le> x \<and> x < 2 powr (of_int 29 + 1)"
    by (simp add: x_def)
  then have "\<lfloor>log 2 x\<rfloor> = 29"
    using floor_log_eq_powr_iff [of x 2 29] pos by simp
  then have e: "exponent64 x = - 23"
    using pos by (simp add: exponent64_def)
  have q: "x / 2 powi (- 23) = 9007199254740992 - 1 / 128"
    by (simp add: x_def power_int_minus field_simps)
  have fl: "\<lfloor>9007199254740992 - 1 / 128 :: real\<rfloor> = 9007199254740991"
    by (simp add: floor_eq_iff)
  have r: "rne (x / 2 powi (- 23)) = 9007199254740992"
    unfolding q rne_def Let_def fl by simp
  have "round64 x = of_int (rne (x / 2 powi exponent64 x)) * 2 powi exponent64 x"
    using pos by (simp add: round64_def)
  also have "\<dots> = 9007199254740992 * 2 powi (- 23)"
    unfolding e r by simp
  also have "\<dots> = 2 ^ 30" by (simp add: power_int_minus)
  finally show ?thesis by (simp add: float_sub_def x_def)
qed

lemma float_sub_mono: "a \<le> a' \<Longrightarrow> float_sub a b \<le> float_sub a' b"
  by (simp add: float_sub_def round64_mono)

lemma float_sub_nonneg: "b \<le> a \<Longrightarrow> 0 \<le> float_sub a b"
  by (simp add: float_sub_def round64_nonneg)

section \<open>What a run returns\<close>

lemma uptimes_run:
  "uptimes (fst (run calls g)) =
     map (\<lambda>t. float_sub t (startup_time g)) (health_readings calls)"
  unfolding run_responses
  by (induction calls rule: health_readings.induct)
     (simp_all add: health_check_def root_def info_def)

lemma timestamps_run:
  "timestamps (fst (run calls g)) = map isoformat (root_readings calls)"
  unfolding run_responses
  by (induction calls rule: root_readings.induct)
     (simp_all add: health_check_def root_def info_def)

lemma timestamps_parse:
  "list_all valid_datetime (root_readings calls) \<Longrightarrow>
   map parse_iso8601 (timestamps (fst (run calls g))) = map Some (root_readings calls)"
  by (simp add: timestamps_run list_all_iff parse_iso8601_isoformat)

lemma sorted_shift: "sorted (t0 # ts) \<Longrightarrow> sorted (map (\<lambda>t. float_sub t c) ts)"
  by (induction ts) (auto simp: float_sub_mono)

lemma nonneg_shift:
  "sorted (t0 # ts) \<Longrightarrow> list_all (\<lambda>u. 0 \<le> u) (map (\<lambda>t. float_sub t t0) ts)"
  by (induction ts) (auto simp: list_all_iff float_sub_nonneg)

section \<open>The health check\<close>

text \<open>
  C1. Every call of the \<open>GET /health\<close> handler, whatever the clock shows and whatever the
  process state is, returns status \<open>healthy\<close> and version \<open>1.0.0\<close>.
\<close>

theorem health_check_status_version:
  "status (fst (health_check clk g)) = ''healthy'' \<and>
   HealthResponse.version (fst (health_check clk g)) = ''1.0.0''"
  by (simp add: health_check_def)

text \<open>
  C2, as stated, fails: \<open>time.time()\<close> is the wall clock, and the handler subtracts without
  a guard. With the module loaded at reading 5, a call at reading 7 followed by a call at
  reading 4 (the clock was set back in between) returns the uptimes 2 and -1: the second
  is negative and smaller than the first.
\<close>

theorem uptime_counterexample:
  "uptimes (fst (run
      [(Health, \<lparr>time_time = 7, utcnow = \<lparr>year = 2024, month = 1, day = 1, hour = 0,
                                          minute = 0, second = 7, microsecond = 0\<rparr>\<rparr>),
       (Health, \<lparr>time_time = 4, utcnow = \<lparr>year = 2024, month = 1, day = 1, hour = 0,
                                          minute = 0, second = 4, microsecond = 0\<rparr>\<rparr>)]
      (module_load 5))) = [2, - 1] \<and>
   uptime (fst (health_check
      \<lparr>time_time = 4, utcnow = \<lparr>year = 2024, month = 1, day = 1, hour = 0,
                                minute = 0, second = 4, microsecond = 0\<rparr>\<rparr>
      (module_load 5))) < 0 \<and>
   \<not> sorted (uptimes (fst (run
      [(Health, \<lparr>time_time = 7, utcnow = \<lparr>year = 2024, month = 1, day = 1, hour = 0,
                                          minute = 0, second = 7, microsecond = 0\<rparr>\<rparr>),
       (Health, \<lparr>time_time = 4, utcnow = \<lparr>year = 2024, month = 1, day = 1, hour = 0,
                                          minute = 0, second = 4, microsecond = 0\<rparr>\<rparr>)]
      (module_load 5))))"
proof -
  have "round64 2 = 2"
    using round64_of_int [of 2] by simp
  moreover have "round64 (- 1) = - 1"
    using round64_of_int [of "- 1"] by simp
  ultimately show ?thesis
    by (simp add: health_check_def module_load_def float_sub_def)
qed

text \<open>
  C2, amended. When the readings of \<open>time.time()\<close> taken at module load and by the
  successive \<open>GET /health\<close> calls of a run are non-decreasing, every returned uptime is at
  least 0 and the uptimes are non-decreasing in the order of the calls. Calls of the other
  two endpoints may come in between.
\<close>

theorem uptime_nonneg_nondecreasing:
  assumes "sorted (t0 # health_readings calls)"
  shows "list_all (\<lambda>u. 0 \<le> u) (uptimes (fst (run calls (module_load t0)))) \<and>
         sorted (uptimes (fst (run calls (module_load t0))))"
  using assms sorted_shift [of t0 "health_readings calls" t0]
    nonneg_shift [of t0 "health_readings calls"]
  by (simp add: uptimes_run module_load_def)

theorem uptime_nonneg_nondecreasing_witness:
  "sorted (5 # health_readings
      [(Health, \<lparr>time_time = 6, utcnow = \<lparr>year = 2024, month = 1, day = 1, hour = 0,
                                          minute = 0, second = 6, microsecond = 0\<rparr>\<rparr>),
       (Root, \<lparr>time_time = 7, utcnow = \<lparr>year = 2024, month = 1, day = 1, hour = 0,
                                        minute = 0, second = 7, microsecond = 0\<rparr>\<rparr>),
       (Health, \<lparr>time_time = 8, utcnow = \<lparr>year = 2024, month = 1, day = 1, hour = 0,
                                          minute = 0, second = 8, microsecond = 0\<rparr>\<rparr>)]) \<and>
   list_all (\<lambda>u. 0 \<le> u) (uptimes (fst (run
      [(Health, \<lparr>time_time = 6, utcnow = \<lparr>year = 2024, month = 1, day = 1, hour = 0,
                                          minute = 0, second = 6, microsecond = 0\<rparr>\<rparr>),
       (Root, \<lparr>time_time = 7, utcnow = \<lparr>year = 2024, month = 1, day = 1, hour = 0,
                                        minute = 0, second = 7, microsecond = 0\<rparr>\<rparr>),
       (Health, \<lparr>time_time = 8, utcnow = \<lparr>year = 2024, month = 1, day = 1, hour = 0,
                                          minute = 0, second = 8, microsecond = 0\<rparr>\<rparr>)]
      (module_load 5)))) \<and>
   sorted (uptimes (fst (run
      [(Health, \<lparr>time_time = 6, utcnow = \<lparr>year = 2024, month = 1, day = 1, hour = 0,
                                          minute = 0, second = 6, microsecond = 0\<rparr>\<rparr>),
       (Root, \<lparr>time_time = 7, utcnow = \<lparr>year = 2024, month = 1, day = 1, hour = 0,
                                        minute = 0, second = 7, microsecond = 0\<rparr>\<rparr>),
       (Health, \<lparr>time_time = 8, utcnow = \<lparr>year = 2024, month = 1, day = 1, hour = 0,
                                          minute = 0, second = 8, microsecond = 0\<rparr>\<rparr>)]
      (module_load 5))))"
proof -
  let ?calls = "[(Health, \<lparr>time_time = 6, utcnow = \<lparr>year = 2024, month = 1, day = 1, hour = 0,
                                          minute = 0, second = 6, microsecond = 0\<rparr>\<rparr>),
       (Root, \<lparr>time_time = 7, utcnow = \<lparr>year = 2024, month = 1, day = 1, hour = 0,
                                        minute = 0, second = 7, microsecond = 0\<rparr>\<rparr>),
       (Health, \<lparr>time_time = 8, utcnow = \<lparr>year = 2024, month = 1, day = 1, hour = 0,
                                          minute = 0, second = 8, microsecond = 0\<rparr>\<rparr>)]"
  have h: "sorted ((5::real) # health_readings ?calls)"
    by simp
  show ?thesis
    using h uptime_nonneg_nondecreasing [OF h] by blast
qed

text \<open>
  C3. The uptime returned by a \<open>GET /health\<close> call is the reading of the clock at that call
  minus the reading taken at module load, whatever calls were served before it: the
  startup reading still is the one of module load. The subtraction is the one of Python
  floats; its result is the exact difference up to half a unit in the last place, that is
  up to a relative error of \<open>1 / 2 ^ 53\<close> (an absolute error of \<open>2 powi (- 1075)\<close> below the
  normal range).
\<close>

theorem uptime_is_elapsed_since_load:
  "uptime (fst (health_check clk (snd (run calls (module_load t0))))) =
     float_sub (time_time clk) t0 \<and>
   \<bar>uptime (fst (health_check clk (snd (run calls (module_load t0))))) - (time_time clk - t0)\<bar>
     \<le> max (\<bar>time_time clk - t0\<bar> / 2 ^ 53) (2 powi (- 1075)) \<and>
   startup_time (snd (run calls (module_load t0))) = t0"
proof (intro conjI)
  show u: "uptime (fst (health_check clk (snd (run calls (module_load t0))))) =
     float_sub (time_time clk) t0"
    by (simp add: run_state health_check_def module_load_def)
  show "\<bar>uptime (fst (health_check clk (snd (run calls (module_load t0))))) -
      (time_time clk - t0)\<bar>
     \<le> max (\<bar>time_time clk - t0\<bar> / 2 ^ 53) (2 powi (- 1075))"
    unfolding u float_sub_def by (rule round64_error)
  show "startup_time (snd (run calls (module_load t0))) = t0"
    by (simp add: run_state module_load_def)
qed

section \<open>The info endpoint\<close>

text \<open>
  C4. Every call of the \<open>GET /api/info\<close> handler returns the object of the specification:
  the same eight keys, each one time, with the same values; two calls return the same
  object whatever their clocks and process states.
\<close>

theorem info_is_constant:
  "map_of (fst (info clk g)) = info_spec \<and>
   distinct (map fst (fst (info clk g))) \<and>
   fst (info clk g) = fst (info clk' g')"
  by (auto simp add: info_def info_spec_def fun_eq_iff)

section \<open>The root endpoint\<close>

text \<open>
  C5. Every call of the \<open>GET /\<close> handler returns the welcome message with its trailing
  space and the version \<open>1.0.0\<close>, and its timestamp is the ISO format of the clock reading
  of that very call: read back, the timestamp gives exactly that reading, so that two
  calls at different readings return different timestamps. In a run, the timestamps are
  those of the readings of the successive calls, each read back as its own reading.
\<close>

theorem root_response:
  "fst (root clk g) =
     \<lparr>message = ''Welcome to FastAPI with Alpine Docker! '',
      version = ''1.0.0'',
      timestamp = isoformat (utcnow clk)\<rparr> \<and>
   (valid_datetime (utcnow clk) \<longrightarrow>
      parse_iso8601 (timestamp (fst (root clk g))) = Some (utcnow clk)) \<and>
   timestamps (fst (run calls g)) = map isoformat (root_readings calls) \<and>
   (list_all valid_datetime (root_readings calls) \<longrightarrow>
      map parse_iso8601 (timestamps (fst (run calls g))) = map Some (root_readings calls))"
proof (intro conjI impI)
  show "fst (root clk g) =
     \<lparr>message = ''Welcome to FastAPI with Alpine Docker! '',
      version = ''1.0.0'',
      timestamp = isoformat (utcnow clk)\<rparr>"
    by (simp add: root_def)
  show "parse_iso8601 (timestamp (fst (root clk g))) = Some (utcnow clk)"
    if "valid_datetime (utcnow clk)"
    using that by (simp add: root_def parse_iso8601_isoformat)
  show "timestamps (fst (run calls g)) = map isoformat (root_readings calls)"
    by (rule timestamps_run)
  show "map parse_iso8601 (timestamps (fst (run calls g))) = map Some (root_readings calls)"
    if "list_all valid_datetime (root_readings calls)"
    using that by (rule timestamps_parse)
qed

theorem root_response_witness:
  "valid_datetime \<lparr>year = 2023, month = 12, day = 31, hour = 23, minute = 59, second = 59,
                    microsecond = 1\<rparr> \<and>
   list_all valid_datetime (root_readings
      [(Root, \<lparr>time_time = 6, utcnow = \<lparr>year = 2023, month = 12, day = 31, hour = 23,
                                        minute = 59, second = 59, microsecond = 1\<rparr>\<rparr>)]) \<and>
   timestamp (fst (root
      \<lparr>time_time = 6, utcnow = \<lparr>year = 2023, month = 12, day = 31, hour = 23,
                                minute = 59, second = 59, microsecond = 1\<rparr>\<rparr>
      (module_load 5))) = ''2023-12-31T23:59:59.000001'' \<and>
   parse_iso8601 (timestamp (fst (root
      \<lparr>time_time = 6, utcnow = \<lparr>year = 2023, month = 12, day = 31, hour = 23,
                                minute = 59, second = 59, microsecond = 1\<rparr>\<rparr>
      (module_load 5)))) =
     Some \<lparr>year = 2023, month = 12, day = 31, hour = 23, minute = 59, second = 59,
           microsecond = 1\<rparr> \<and>
   map parse_iso8601 (timestamps (fst (run
      [(Root, \<lparr>time_time = 6, utcnow = \<lparr>year = 2023, month = 12, day = 31, hour = 23,
                                        minute = 59, second = 59, microsecond = 1\<rparr>\<rparr>)]
      (module_load 5)))) =
     [Some \<lparr>year = 2023, month = 12, day = 31, hour = 23, minute = 59, second = 59,
            microsecond = 1\<rparr>]"
proof -
  let ?d = "\<lparr>year = 2023, month = 12, day = 31, hour = 23, minute = 59, second = 59,
             microsecond = 1\<rparr>"
  let ?clk = "\<lparr>time_time = 6, utcnow = ?d\<rparr>"
  have v: "valid_datetime ?d"
    by (simp add: valid_datetime_def days_in_month_def)
  have r: "replicate 5 (CHR ''0'') = ''00000''"
    by (simp add: numeral_eq_Suc)
  have s: "isoformat ?d = ''2023-12-31T23:59:59.000001''"
    by (simp add: isoformat_def format_time_def zero_pad_def str_nat.simps digit_char_def r)
  note t = root_response [of ?clk "module_load 5" "[(Root, ?clk)]"]
  have w: "list_all valid_datetime (root_readings [(Root, ?clk)])"
    using v by simp
  have a: "timestamp (fst (root ?clk (module_load 5))) = ''2023-12-31T23:59:59.000001''"
    using t [THEN conjunct1] s by simp
  have b: "parse_iso8601 (timestamp (fst (root ?clk (module_load 5)))) = Some ?d"
    using t [THEN conjunct2, THEN conjunct1] v by simp
  have c: "map parse_iso8601 (timestamps (fst (run [(Root, ?clk)] (module_load 5)))) =
     [Some ?d]"
    using t [THEN conjunct2, THEN conjunct2, THEN conjunct2] w by simp
  from v w a b c show ?thesis by blast
qed

text \<open>
  C6, as stated, fails in its second half: \<open>datetime.utcnow()\<close> reads the wall clock. A
  call at 00:00:01 followed by a call at 00:00:00 (the clock was set back in between)
  returns two timestamps that both parse, the later one denoting the earlier time.
\<close>

theorem timestamp_order_counterexample:
  "timestamps (fst (run
      [(Root, \<lparr>time_time = 7, utcnow = \<lparr>year = 2024, month = 1, day = 1, hour = 0,
                                        minute = 0, second = 1, microsecond = 0\<rparr>\<rparr>),
       (Root, \<lparr>time_time = 4, utcnow = \<lparr>year = 2024, month = 1, day = 1, hour = 0,
                                        minute = 0, second = 0, microsecond = 0\<rparr>\<rparr>)]
      (module_load 5))) = [''2024-01-01T00:00:01'', ''2024-01-01T00:00:00''] \<and>
   parse_iso8601 ''2024-01-01T00:00:01'' =
     Some \<lparr>year = 2024, month = 1, day = 1, hour = 0, minute = 0, second = 1,
           microsecond = 0\<rparr> \<and>
   parse_iso8601 ''2024-01-01T00:00:00'' =
     Some \<lparr>year = 2024, month = 1, day = 1, hour = 0, minute = 0, second = 0,
           microsecond = 0\<rparr> \<and>
   \<not> dt_le \<lparr>year = 2024, month = 1, day = 1, hour = 0, minute = 0, second = 1,
             microsecond = 0\<rparr>
            \<lparr>year = 2024, month = 1, day = 1, hour = 0, minute = 0, second = 0,
             microsecond = 0\<rparr>"
proof -
  have "timestamps (fst (run
      [(Root, \<lparr>time_time = 7, utcnow = \<lparr>year = 2024, month = 1, day = 1, hour = 0,
                                        minute = 0, second = 1, microsecond = 0\<rparr>\<rparr>),
       (Root, \<lparr>time_time = 4, utcnow = \<lparr>year = 2024, month = 1, day = 1, hour = 0,
                                        minute = 0, second = 0, microsecond = 0\<rparr>\<rparr>)]
      (module_load 5))) = [''2024-01-01T00:00:01'', ''2024-01-01T00:00:00'']"
    by (simp add: root_def isoformat_def format_time_def zero_pad_def str_nat.simps
        digit_char_def)
  moreover have "parse_iso8601 ''2024-01-01T00:00:01'' =
     Some \<lparr>year = 2024, month = 1, day = 1, hour = 0, minute = 0, second = 1,
           microsecond = 0\<rparr>"
    by (simp add: parse_iso8601_def field_def digit_val_def valid_datetime_def
        days_in_month_def)
  moreover have "parse_iso8601 ''2024-01-01T00:00:00'' =
     Some \<lparr>year = 2024, month = 1, day = 1, hour = 0, minute = 0, second = 0,
           microsecond = 0\<rparr>"
    by (simp add: parse_iso8601_def field_def digit_val_def valid_datetime_def
        days_in_month_def)
  moreover have "\<not> dt_le \<lparr>year = 2024, month = 1, day = 1, hour = 0, minute = 0, second = 1,
             microsecond = 0\<rparr>
            \<lparr>year = 2024, month = 1, day = 1, hour = 0, minute = 0, second = 0,
             microsecond = 0\<rparr>"
    by (simp add: dt_le_def dt_key_def)
  ultimately show ?thesis by blast
qed

text \<open>
  C6, amended. The clock readings being datetimes that the standard library can build,
  every timestamp returned by \<open>GET /\<close> in a run parses as ISO-8601; and when the readings
  of \<open>datetime.utcnow()\<close> taken by the successive \<open>GET /\<close> calls are non-decreasing, the
  times that the timestamps denote are non-decreasing in the order of the calls.
\<close>

theorem timestamps_parse_nondecreasing:
  assumes "list_all valid_datetime (root_readings calls)"
  shows "\<exists>ds. map parse_iso8601 (timestamps (fst (run calls g))) = map Some ds \<and>
              (sorted_wrt dt_le (root_readings calls) \<longrightarrow> sorted_wrt dt_le ds)"
  using assms timestamps_parse by blast

theorem timestamps_parse_nondecreasing_witness:
  "list_all valid_datetime (root_readings
      [(Root, \<lparr>time_time = 6, utcnow = \<lparr>year = 2024, month = 2, day = 29, hour = 23,
                                        minute = 59, second = 59, microsecond = 999999\<rparr>\<rparr>),
       (Health, \<lparr>time_time = 7, utcnow = \<lparr>year = 2024, month = 3, day = 1, hour = 0,
                                          minute = 0, second = 0, microsecond = 0\<rparr>\<rparr>),
       (Root, \<lparr>time_time = 7, utcnow = \<lparr>year = 2024, month = 3, day = 1, hour = 0,
                                        minute = 0, second = 0, microsecond = 0\<rparr>\<rparr>)]) \<and>
   sorted_wrt dt_le (root_readings
      [(Root, \<lparr>time_time = 6, utcnow = \<lparr>year = 2024, month = 2, day = 29, hour = 23,
                                        minute = 59, second = 59, microsecond = 999999\<rparr>\<rparr>),
       (Health, \<lparr>time_time = 7, utcnow = \<lparr>year = 2024, month = 3, day = 1, hour = 0,
                                          minute = 0, second = 0, microsecond = 0\<rparr>\<rparr>),
       (Root, \<lparr>time_time = 7, utcnow = \<lparr>year = 2024, month = 3, day = 1, hour = 0,
                                        minute = 0, second = 0, microsecond = 0\<rparr>\<rparr>)]) \<and>
   (\<exists>ds. map parse_iso8601 (timestamps (fst (run
      [(Root, \<lparr>time_time = 6, utcnow = \<lparr>year = 2024, month = 2, day = 29, hour = 23,
                                        minute = 59, second = 59, microsecond = 999999\<rparr>\<rparr>),
       (Health, \<lparr>time_time = 7, utcnow = \<lparr>year = 2024, month = 3, day = 1, hour = 0,
                                          minute = 0, second = 0, microsecond = 0\<rparr>\<rparr>),
       (Root, \<lparr>time_time = 7, utcnow = \<lparr>year = 2024, month = 3, day = 1, hour = 0,
                                        minute = 0, second = 0, microsecond = 0\<rparr>\<rparr>)]
      (module_load 5)))) = map Some ds \<and> sorted_wrt dt_le ds)"
proof -
  let ?calls = "[(Root, \<lparr>time_time = 6, utcnow = \<lparr>year = 2024, month = 2, day = 29, hour = 23,
                                        minute = 59, second = 59, microsecond = 999999\<rparr>\<rparr>),
       (Health, \<lparr>time_time = 7, utcnow = \<lparr>year = 2024, month = 3, day = 1, hour = 0,
                                          minute = 0, second = 0, microsecond = 0\<rparr>\<rparr>),
       (Root, \<lparr>time_time = 7, utcnow = \<lparr>year = 2024, month = 3, day = 1, hour = 0,
                                        minute = 0, second = 0, microsecond = 0\<rparr>\<rparr>)]"
  have v: "list_all valid_datetime (root_readings ?calls)"
    by (simp add: valid_datetime_def days_in_month_def is_leap_def)
  have s: "sorted_wrt dt_le (root_readings ?calls)"
    by (simp add: dt_le_def dt_key_def)
  show ?thesis
    using v s timestamps_parse_nondecreasing [OF v, of "module_load 5"] by blast
qed

section \<open>Repeated requests\<close>

text \<open>
  C7. Sending the same request N times, with any N clocks, gives N responses that are
  equal once the timestamp of a MessageResponse and the uptime of a HealthResponse are
  blanked: same shape, same value in every other field.
\<close>

theorem same_request_same_shape:
  "map mask (fst (run (map (\<lambda>clk. (e, clk)) clks) g)) =
   replicate (length clks) (mask (fst (handle e clk0 g)))"
  unfolding run_responses
  by (cases e) (simp_all add: root_def info_def health_check_def map_replicate_const comp_def)

text \<open>
  C8. The process state is the startup reading alone. Module load sets it; after any
  sequence of requests to the three endpoints the process state is the one of module
  load, the startup reading included, and no single handler call changes the state it
  is given.
\<close>

theorem startup_time_never_changes:
  "snd (run calls (module_load t0)) = module_load t0 \<and>
   startup_time (snd (run calls (module_load t0))) = t0 \<and>
   snd (handle e clk g) = g"
  by (simp add: run_state handle_state module_load_def)

section \<open>Determinism\<close>

text \<open>
  C10. Two calls of the same handler that observe the same clock reading, in processes
  with the same startup reading, return the same response, field by field.
\<close>

theorem handlers_depend_on_observed_clock_only:
  assumes "observed e c1 = observed e c2" and "startup_time g1 = startup_time g2"
  shows "fst (handle e c1 g1) = fst (handle e c2 g2)"
  using assms by (cases e) (simp_all add: root_def info_def health_check_def)

theorem handlers_depend_on_observed_clock_only_witness:
  "observed Health
     \<lparr>time_time = 9, utcnow = \<lparr>year = 2024, month = 1, day = 1, hour = 0, minute = 0,
                               second = 4, microsecond = 0\<rparr>\<rparr> =
   observed Health
     \<lparr>time_time = 9, utcnow = \<lparr>year = 2024, month = 1, day = 1, hour = 0, minute = 0,
                               second = 5, microsecond = 0\<rparr>\<rparr> \<and>
   startup_time (module_load 5) = startup_time (module_load 5) \<and>
   fst (handle Health
     \<lparr>time_time = 9, utcnow = \<lparr>year = 2024, month = 1, day = 1, hour = 0, minute = 0,
                               second = 4, microsecond = 0\<rparr>\<rparr> (module_load 5)) =
   fst (handle Health
     \<lparr>time_time = 9, utcnow = \<lparr>year = 2024, month = 1, day = 1, hour = 0, minute = 0,
                               second = 5, microsecond = 0\<rparr>\<rparr> (module_load 5))"
  using handlers_depend_on_observed_clock_only [of Health
     "\<lparr>time_time = 9, utcnow = \<lparr>year = 2024, month = 1, day = 1, hour = 0, minute = 0,
                               second = 4, microsecond = 0\<rparr>\<rparr>"
     "\<lparr>time_time = 9, utcnow = \<lparr>year = 2024, month = 1, day = 1, hour = 0, minute = 0,
                               second = 5, microsecond = 0\<rparr>\<rparr>"
     "module_load 5" "module_load 5"]
  by simp

end
